theory Spec2Isabelle
  imports Main "HOL-Library.Multiset"
begin

section \<open>The relational store (db/schema.sql)\<close>

text \<open>
  Each table is the list of its rows. Integer columns are \<open>int\<close>, text columns are
  \<open>string\<close>, a nullable column is an \<open>option\<close>. Request bodies are modelled
  with every field already of its column's type (JSON integers and strings); the dynamic
  typing of JavaScript values and of SQLite columns is outside the model, and so are the
  64-bit range of SQLite integers, the precision of JavaScript numbers and the role
  middleware in front of each handler. A handler is a function from the store and the
  request to the response and the new store.
\<close>

record team_row =
  t_id :: int
  t_name :: string
  coach_name :: "string option"
  founded_year :: "int option"
  stadium :: "string option"

record player_row =
  p_id :: int
  p_team_id :: int
  full_name :: string
  position :: string
  age :: int
  nationality :: "string option"
  appearances :: int
  goals :: int
  assists :: int
  yellow_cards :: int
  red_cards :: int

record registration_row =
  r_team_id :: int
  r_competition_id :: int

record match_row =
  m_id :: int
  competition_id :: "int option"
  home_team_id :: int
  away_team_id :: int
  date_time :: string
  venue :: "string option"
  referee :: "string option"
  status :: string
  home_score :: int
  away_score :: int

record match_event_row =
  e_id :: int
  e_match_id :: int
  e_minute :: int
  e_type :: string
  e_player_id :: "int option"
  e_team_id :: "int option"
  e_notes :: "string option"

text \<open>
  \<open>seq_match_events\<close>, \<open>seq_players\<close> and \<open>seq_matches\<close> are the
  \<open>sqlite_sequence\<close> entries behind \<open>INTEGER PRIMARY KEY AUTOINCREMENT\<close>: the
  largest row id handed out so far. Of the competitions only the ids are kept, which is
  what the foreign key of a match looks at.
\<close>

record store =
  teams :: "team_row list"
  players :: "player_row list"
  competitions :: "int list"
  registrations :: "registration_row list"
  matches :: "match_row list"
  match_events :: "match_event_row list"
  seq_players :: int
  seq_matches :: int
  seq_match_events :: int

text \<open>
  What a handler can end with other than its normal response: a 400 response sent by the
  handler itself, an exception thrown by the store on a violated constraint (the handlers of
  the status and event routes do not catch it), an exception thrown by the store when a
  statement names a column that does not exist, or a \<open>TypeError\<close> from reading a
  property of \<open>undefined\<close>.
\<close>

datatype sqlite_constraint = CHECK | FOREIGNKEY | UNIQUE

datatype error =
    Http400 string
  | SqliteError sqlite_constraint
  | SqliteNoSuchColumn string
  | TypeError

text \<open>
  The status of the response. An exception that leaves a handler reaches the default error
  handler of Express, which answers 500.
\<close>

fun response_status :: "error \<Rightarrow> nat" where
  "response_status (Http400 msg) = 400"
| "response_status (SqliteError c) = 500"
| "response_status (SqliteNoSuchColumn name) = 500"
| "response_status TypeError = 500"

text \<open>\<open>SELECT * FROM matches WHERE id = ?\<close> with \<open>.get\<close>: the first row, or undefined.\<close>

definition get_match :: "store \<Rightarrow> int \<Rightarrow> match_row option" where
  "get_match db mid = find (\<lambda>m. m_id m = mid) (matches db)"

definition get_player :: "store \<Rightarrow> int \<Rightarrow> player_row option" where
  "get_player db pid = find (\<lambda>p. p_id p = pid) (players db)"

section \<open>POST /api/matches/:id/status\<close>

definition statuses :: "string list" where
  "statuses = [''SCHEDULED'', ''IN_PLAY'', ''FINISHED'']"

text \<open>\<open>UPDATE matches SET status = ? WHERE id = ?\<close>; the response carries the number of rows changed.\<close>

definition postStatus :: "store \<Rightarrow> int \<Rightarrow> string \<Rightarrow> (error + nat) \<times> store" where
  "postStatus db mid st =
    (if st \<notin> set statuses then (Inl (Http400 ''Bad status''), db)
     else (Inr (length (filter (\<lambda>m. m_id m = mid) (matches db))),
           db\<lparr>matches := map (\<lambda>m. if m_id m = mid then m\<lparr>status := st\<rparr> else m) (matches db)\<rparr>))"

section \<open>POST /api/matches/:id/event\<close>

record event_body =
  b_minute :: int
  b_type :: string
  b_player_id :: "int option"
  b_team_id :: "int option"
  b_notes :: "string option"

definition event_types :: "string list" where
  "event_types = [''GOAL'', ''ASSIST'', ''YELLOW'', ''RED'', ''SUB'', ''OWN_GOAL'']"

text \<open>A nullable foreign key holds when the column is NULL or names an existing parent row.\<close>

fun fk_ok :: "int option \<Rightarrow> int list \<Rightarrow> bool" where
  "fk_ok None ids = True"
| "fk_ok (Some i) ids = (i \<in> set ids)"

text \<open>
  \<open>INSERT INTO match_events (match_id, minute, type, player_id, team_id, notes)\<close> under
  the table's constraints, with \<open>foreign_keys = ON\<close>. A failing statement changes nothing.
\<close>

definition insert_match_event ::
  "store \<Rightarrow> int \<Rightarrow> int \<Rightarrow> string \<Rightarrow> int option \<Rightarrow> int option \<Rightarrow> string option
     \<Rightarrow> error + int \<times> store" where
  "insert_match_event db mid minute ty pid tid notes =
    (if \<not> (0 \<le> minute \<and> minute \<le> 130) then Inl (SqliteError CHECK)
     else if ty \<notin> set event_types then Inl (SqliteError CHECK)
     else if mid \<notin> set (map m_id (matches db)) \<or> \<not> fk_ok pid (map p_id (players db))
               \<or> \<not> fk_ok tid (map t_id (teams db))
       then Inl (SqliteError FOREIGNKEY)
     else
       let i = seq_match_events db + 1 in
       Inr (i, db\<lparr>match_events := match_events db @
                    [\<lparr>e_id = i, e_match_id = mid, e_minute = minute, e_type = ty,
                      e_player_id = pid, e_team_id = tid, e_notes = notes\<rparr>],
                  seq_match_events := i\<rparr>))"

text \<open>JavaScript's \<open>a ^ b\<close> on two booleans: each becomes 0 or 1, the result is their bitwise xor.\<close>

definition xor_bit :: "bool \<Rightarrow> bool \<Rightarrow> int" where
  "xor_bit a b = (if a \<noteq> b then 1 else 0)"

text \<open>The conditional \<open>x ? 1 : 0\<close> on a number: 0 is falsy.\<close>

definition one_if :: "int \<Rightarrow> int" where
  "one_if x = (if x \<noteq> 0 then 1 else 0)"

definition homeInc :: "match_row \<Rightarrow> string \<Rightarrow> int option \<Rightarrow> int" where
  "homeInc m ty team_id = one_if (xor_bit (team_id = Some (home_team_id m)) (ty = ''OWN_GOAL''))"

definition awayInc :: "match_row \<Rightarrow> string \<Rightarrow> int option \<Rightarrow> int" where
  "awayInc m ty team_id = one_if (xor_bit (team_id = Some (away_team_id m)) (ty = ''OWN_GOAL''))"

text \<open>\<open>UPDATE matches SET home_score = home_score + ?, away_score = away_score + ? WHERE id = ?\<close>\<close>

definition update_scores :: "store \<Rightarrow> int \<Rightarrow> int \<Rightarrow> int \<Rightarrow> store" where
  "update_scores db hi ai mid =
     db\<lparr>matches := map (\<lambda>m. if m_id m = mid
                             then m\<lparr>home_score := home_score m + hi, away_score := away_score m + ai\<rparr>
                             else m) (matches db)\<rparr>"

text \<open>\<open>UPDATE players SET c = c + 1 WHERE id = ?\<close> for the three counters the route touches.\<close>

definition inc_goals :: "store \<Rightarrow> int \<Rightarrow> store" where
  "inc_goals db pid =
     db\<lparr>players := map (\<lambda>p. if p_id p = pid then p\<lparr>goals := goals p + 1\<rparr> else p) (players db)\<rparr>"

definition inc_yellow_cards :: "store \<Rightarrow> int \<Rightarrow> store" where
  "inc_yellow_cards db pid =
     db\<lparr>players := map (\<lambda>p. if p_id p = pid then p\<lparr>yellow_cards := yellow_cards p + 1\<rparr> else p)
                       (players db)\<rparr>"

definition inc_red_cards :: "store \<Rightarrow> int \<Rightarrow> store" where
  "inc_red_cards db pid =
     db\<lparr>players := map (\<lambda>p. if p_id p = pid then p\<lparr>red_cards := red_cards p + 1\<rparr> else p)
                       (players db)\<rparr>"

text \<open>
  \<open>if (player_id && cond) stmt(player_id)\<close>: a player id is truthy when it is neither
  null nor 0.
\<close>

fun when_player :: "int option \<Rightarrow> bool \<Rightarrow> (store \<Rightarrow> int \<Rightarrow> store) \<Rightarrow> store \<Rightarrow> store" where
  "when_player None cond stmt db = db"
| "when_player (Some pid) cond stmt db = (if pid \<noteq> 0 \<and> cond then stmt db pid else db)"

text \<open>
  The block \<open>if (type === 'GOAL' || type === 'OWN_GOAL') { ... }\<close>; \<open>match\<close> is the
  row read back after the insert. Reading \<open>match.home_team_id\<close> of an absent row throws.
\<close>

definition goal_block :: "store \<Rightarrow> int \<Rightarrow> string \<Rightarrow> int option \<Rightarrow> int option \<Rightarrow> error + store" where
  "goal_block db mid ty player_id team_id =
    (if ty = ''GOAL'' \<or> ty = ''OWN_GOAL'' then
       (case get_match db mid of
          None \<Rightarrow> Inl TypeError
        | Some m \<Rightarrow>
            Inr (when_player player_id (ty = ''GOAL'') inc_goals
                   (update_scores db (homeInc m ty team_id) (awayInc m ty team_id) mid)))
     else Inr db)"

text \<open>
  The handler. The statements run one after the other with no transaction around them, so
  the store is returned also when the handler ends with an error.
\<close>

definition postEvent :: "store \<Rightarrow> int \<Rightarrow> event_body \<Rightarrow> (error + int) \<times> store" where
  "postEvent db mid body =
    (if b_type body \<notin> set event_types then (Inl (Http400 ''Bad event type''), db)
     else
       (case insert_match_event db mid (b_minute body) (b_type body) (b_player_id body)
               (b_team_id body) (b_notes body) of
          Inl e \<Rightarrow> (Inl e, db)
        | Inr (eid, db1) \<Rightarrow>
           (case goal_block db1 mid (b_type body) (b_player_id body) (b_team_id body) of
              Inl e \<Rightarrow> (Inl e, db1)
            | Inr db2 \<Rightarrow>
               (Inr eid,
                when_player (b_player_id body) (b_type body = ''RED'') inc_red_cards
                  (when_player (b_player_id body) (b_type body = ''YELLOW'') inc_yellow_cards db2)))))"

section \<open>PUT /api/players/:id\<close>

text \<open>
  The request body, restricted to the keys of the handler's \<open>allowed\<close> list: \<open>None\<close>
  is an absent key, \<open>Some v\<close> a key present with value \<open>v\<close> (for the nullable
  column \<open>nationality\<close> the value may itself be null). The five counters are in the list.
\<close>

record player_patch =
  u_team_id :: "int option"
  u_full_name :: "string option"
  u_position :: "string option"
  u_age :: "int option"
  u_nationality :: "string option option"
  u_appearances :: "int option"
  u_goals :: "int option"
  u_assists :: "int option"
  u_yellow_cards :: "int option"
  u_red_cards :: "int option"

text \<open>\<open>fields.length\<close>: how many allowed keys the body has.\<close>

definition is_given :: "'a option \<Rightarrow> nat" where
  "is_given v = (case v of None \<Rightarrow> 0 | Some x \<Rightarrow> 1)"

definition fields_length :: "player_patch \<Rightarrow> nat" where
  "fields_length u =
     is_given (u_team_id u) + is_given (u_full_name u) + is_given (u_position u) + is_given (u_age u)
     + is_given (u_nationality u) + is_given (u_appearances u) + is_given (u_goals u)
     + is_given (u_assists u) + is_given (u_yellow_cards u) + is_given (u_red_cards u)"

definition set_col :: "'a option \<Rightarrow> 'a \<Rightarrow> 'a" where
  "set_col v old = (case v of None \<Rightarrow> old | Some x \<Rightarrow> x)"

text \<open>The \<open>SET f = ?, ...\<close> clause built from the keys present, applied to one row.\<close>

definition set_fields :: "player_patch \<Rightarrow> player_row \<Rightarrow> player_row" where
  "set_fields u p =
     p\<lparr>p_team_id := set_col (u_team_id u) (p_team_id p),
       full_name := set_col (u_full_name u) (full_name p),
       position := set_col (u_position u) (position p),
       age := set_col (u_age u) (age p),
       nationality := set_col (u_nationality u) (nationality p),
       appearances := set_col (u_appearances u) (appearances p),
       goals := set_col (u_goals u) (goals p),
       assists := set_col (u_assists u) (assists p),
       yellow_cards := set_col (u_yellow_cards u) (yellow_cards p),
       red_cards := set_col (u_red_cards u) (red_cards p)\<rparr>"

definition positions :: "string list" where
  "positions = [''GK'', ''DF'', ''MF'', ''FW'']"

text \<open>The CHECK constraints of table \<open>players\<close>.\<close>

definition player_checks :: "player_row \<Rightarrow> bool" where
  "player_checks p = (position p \<in> set positions \<and> 10 \<le> age p \<and> age p \<le> 55)"

text \<open>
  \<open>UPDATE players SET ... WHERE id = ?\<close>. The CHECK constraints are evaluated on the
  rows the statement changes, the foreign key on \<open>team_id\<close> when the statement assigns
  that column in a row; a violation throws and leaves the table as it was. The handler has
  no \<open>try\<close> around the statement.
\<close>

definition putPlayer :: "store \<Rightarrow> int \<Rightarrow> player_patch \<Rightarrow> (error + nat) \<times> store" where
  "putPlayer db pid u =
    (if fields_length u = 0 then (Inr 0, db)
     else
       let changed = map (set_fields u) (filter (\<lambda>p. p_id p = pid) (players db)) in
       if \<not> list_all player_checks changed then (Inl (SqliteError CHECK), db)
       else if changed \<noteq> [] \<and> \<not> fk_ok (u_team_id u) (map t_id (teams db))
         then (Inl (SqliteError FOREIGNKEY), db)
       else (Inr (length changed),
             db\<lparr>players := map (\<lambda>p. if p_id p = pid then set_fields u p else p) (players db)\<rparr>))"

section \<open>POST /api/players and POST /api/matches\<close>

record player_body =
  n_team_id :: int
  n_full_name :: string
  n_position :: string
  n_age :: int
  n_nationality :: "string option"

text \<open>\<open>PlayerSchema.safeParse\<close>; the zod error object sent with status 400 is not modelled further.\<close>

definition PlayerSchema :: "player_body \<Rightarrow> bool" where
  "PlayerSchema b = (0 < n_team_id b \<and> 2 \<le> length (n_full_name b) \<and> n_position b \<in> set positions
                     \<and> 10 \<le> n_age b \<and> n_age b \<le> 55)"

text \<open>The insert sits in \<open>try\<close>/\<open>catch\<close>: a constraint failure becomes a 400 response.\<close>

definition postPlayer :: "store \<Rightarrow> player_body \<Rightarrow> (error + int) \<times> store" where
  "postPlayer db b =
    (if \<not> PlayerSchema b then (Inl (Http400 ''ZodError''), db)
     else if n_team_id b \<notin> set (map t_id (teams db))
       then (Inl (Http400 ''FOREIGN KEY constraint failed''), db)
     else
       let i = seq_players db + 1 in
       (Inr i,
        db\<lparr>players := players db @
              [\<lparr>p_id = i, p_team_id = n_team_id b, full_name = n_full_name b,
                position = n_position b, age = n_age b, nationality = n_nationality b,
                appearances = 0, goals = 0, assists = 0, yellow_cards = 0, red_cards = 0\<rparr>],
           seq_players := i\<rparr>))"

record match_body =
  n_competition_id :: "int option"
  n_home_team_id :: int
  n_away_team_id :: int
  n_date_time :: string
  n_venue :: "string option"
  n_referee :: "string option"

text \<open>\<open>MatchSchema\<close> with its \<open>superRefine\<close>: home and away teams must differ.\<close>

definition MatchSchema :: "match_body \<Rightarrow> bool" where
  "MatchSchema b = ((case n_competition_id b of None \<Rightarrow> True | Some c \<Rightarrow> 0 < c)
                    \<and> 0 < n_home_team_id b \<and> 0 < n_away_team_id b
                    \<and> n_home_team_id b \<noteq> n_away_team_id b)"

definition postMatch :: "store \<Rightarrow> match_body \<Rightarrow> (error + int) \<times> store" where
  "postMatch db b =
    (if \<not> MatchSchema b then (Inl (Http400 ''ZodError''), db)
     else if list_ex (\<lambda>m. home_team_id m = n_home_team_id b \<and> away_team_id m = n_away_team_id b
                          \<and> date_time m = n_date_time b) (matches db)
       then (Inl (Http400 ''UNIQUE constraint failed''), db)
     else if \<not> fk_ok (n_competition_id b) (competitions db)
               \<or> n_home_team_id b \<notin> set (map t_id (teams db))
               \<or> n_away_team_id b \<notin> set (map t_id (teams db))
       then (Inl (Http400 ''FOREIGN KEY constraint failed''), db)
     else
       let i = seq_matches db + 1 in
       (Inr i,
        db\<lparr>matches := matches db @
              [\<lparr>m_id = i, competition_id = n_competition_id b, home_team_id = n_home_team_id b,
                away_team_id = n_away_team_id b, date_time = n_date_time b, venue = n_venue b,
                referee = n_referee b, status = ''SCHEDULED'', home_score = 0, away_score = 0\<rparr>],
           seq_matches := i\<rparr>))"

section \<open>GET /api/standings/:competitionId\<close>

record standing =
  team_id :: int
  team :: string
  P :: int
  W :: int
  D :: int
  L :: int
  GF :: int
  GA :: int
  GD :: int
  PTS :: int

text \<open>
  A JavaScript \<open>Map\<close> keeps its entries in insertion order; setting an existing key
  replaces the value in place. Its values here are objects: \<open>table.get(k)\<close> returns a
  reference, and an assignment through the reference changes the entry of the map. The
  table is therefore the store of the row objects, addressed by team id, and each
  assignment \<open>home.f = e\<close> is \<open>Map_modify\<close> at the home team's id. When both
  references name the same entry, every assignment lands on that one row.
\<close>

type_synonym table = "(int \<times> standing) list"

fun Map_set :: "int \<Rightarrow> standing \<Rightarrow> table \<Rightarrow> table" where
  "Map_set k v [] = [(k, v)]"
| "Map_set k v ((k', v') # es) = (if k' = k then (k, v) # es else (k', v') # Map_set k v es)"

fun Map_get :: "table \<Rightarrow> int \<Rightarrow> standing option" where
  "Map_get [] k = None"
| "Map_get ((k', v') # es) k = (if k' = k then Some v' else Map_get es k)"

fun Map_modify :: "int \<Rightarrow> (standing \<Rightarrow> standing) \<Rightarrow> table \<Rightarrow> table" where
  "Map_modify k f [] = []"
| "Map_modify k f ((k', v') # es) = (if k' = k then (k', f v') # es else (k', v') # Map_modify k f es)"

definition Map_values :: "table \<Rightarrow> standing list" where
  "Map_values t = map snd t"

text \<open>\<open>new Map(teams.map(t => [t.id, { team_id: t.id, team: t.name, P: 0, ... }]))\<close>\<close>

definition zero_row :: "int \<times> string \<Rightarrow> standing" where
  "zero_row t = \<lparr>team_id = fst t, team = snd t, P = 0, W = 0, D = 0, L = 0,
                 GF = 0, GA = 0, GD = 0, PTS = 0\<rparr>"

definition new_table :: "(int \<times> string) list \<Rightarrow> table" where
  "new_table ts = foldl (\<lambda>tbl t. Map_set (fst t) (zero_row t) tbl) [] ts"

text \<open>The body of \<open>for (const m of matches)\<close>, one assignment after the other.\<close>

definition tally :: "table \<Rightarrow> match_row \<Rightarrow> table" where
  "tally table m =
    (let home = home_team_id m; away = away_team_id m in
     if Map_get table home = None \<or> Map_get table away = None then table
     else
       let t1 = Map_modify home (\<lambda>r. r\<lparr>P := P r + 1\<rparr>) table;
           t2 = Map_modify away (\<lambda>r. r\<lparr>P := P r + 1\<rparr>) t1;
           t3 = Map_modify home (\<lambda>r. r\<lparr>GF := GF r + home_score m\<rparr>) t2;
           t4 = Map_modify home (\<lambda>r. r\<lparr>GA := GA r + away_score m\<rparr>) t3;
           t5 = Map_modify home (\<lambda>r. r\<lparr>GD := GF r - GA r\<rparr>) t4;
           t6 = Map_modify away (\<lambda>r. r\<lparr>GF := GF r + away_score m\<rparr>) t5;
           t7 = Map_modify away (\<lambda>r. r\<lparr>GA := GA r + home_score m\<rparr>) t6;
           t8 = Map_modify away (\<lambda>r. r\<lparr>GD := GF r - GA r\<rparr>) t7
       in
        if home_score m > away_score m then
          Map_modify home (\<lambda>r. r\<lparr>PTS := PTS r + 3\<rparr>)
            (Map_modify away (\<lambda>r. r\<lparr>L := L r + 1\<rparr>)
              (Map_modify home (\<lambda>r. r\<lparr>W := W r + 1\<rparr>) t8))
        else if home_score m < away_score m then
          Map_modify away (\<lambda>r. r\<lparr>PTS := PTS r + 3\<rparr>)
            (Map_modify home (\<lambda>r. r\<lparr>L := L r + 1\<rparr>)
              (Map_modify away (\<lambda>r. r\<lparr>W := W r + 1\<rparr>) t8))
        else
          Map_modify away (\<lambda>r. r\<lparr>PTS := PTS r + 1\<rparr>)
            (Map_modify home (\<lambda>r. r\<lparr>PTS := PTS r + 1\<rparr>)
              (Map_modify away (\<lambda>r. r\<lparr>D := D r + 1\<rparr>)
                (Map_modify home (\<lambda>r. r\<lparr>D := D r + 1\<rparr>) t8))))"

text \<open>JavaScript's \<open>x || y\<close> on numbers: \<open>x\<close> unless it is 0.\<close>

definition js_or :: "int \<Rightarrow> int \<Rightarrow> int" where
  "js_or x y = (if x \<noteq> 0 then x else y)"

text \<open>
  The comparator handed to \<open>sort\<close>. \<open>localeCompare\<close> is the built-in of the host
  (its order depends on the locale), so it is the parameter \<open>lc\<close>: negative, zero or
  positive as the first name sorts before, with or after the second.
\<close>

definition compareRows :: "(string \<Rightarrow> string \<Rightarrow> int) \<Rightarrow> standing \<Rightarrow> standing \<Rightarrow> int" where
  "compareRows lc a b =
     js_or (PTS b - PTS a) (js_or (GD b - GD a) (js_or (GF b - GF a) (lc (team a) (team b))))"

text \<open>
  \<open>Array.prototype.sort\<close> with a comparator is a stable sort: \<open>a\<close> is placed before
  \<open>b\<close> when the comparator is negative, after when it is positive, and rows that
  compare as 0 keep their order. For a consistent comparator that result does not depend on
  the sorting algorithm; it is computed here by stable insertion.
\<close>

fun insert_by :: "('a \<Rightarrow> 'a \<Rightarrow> int) \<Rightarrow> 'a \<Rightarrow> 'a list \<Rightarrow> 'a list" where
  "insert_by c x [] = [x]"
| "insert_by c x (y # ys) = (if c x y \<le> 0 then x # y # ys else y # insert_by c x ys)"

definition Array_sort :: "('a \<Rightarrow> 'a \<Rightarrow> int) \<Rightarrow> 'a list \<Rightarrow> 'a list" where
  "Array_sort c xs = foldr (insert_by c) xs []"

text \<open>The handler on the results of its two queries.\<close>

definition computeStandings ::
  "(string \<Rightarrow> string \<Rightarrow> int) \<Rightarrow> (int \<times> string) list \<Rightarrow> match_row list \<Rightarrow> standing list" where
  "computeStandings lc ts ms = Array_sort (compareRows lc) (Map_values (foldl tally (new_table ts) ms))"

text \<open>
  The first query, the registered teams. SQL leaves the order of its rows open; the model
  lists them in table order. The theorems about \<open>computeStandings\<close> hold for every
  order.
\<close>

definition registered_teams :: "store \<Rightarrow> int \<Rightarrow> (int \<times> string) list" where
  "registered_teams db cid =
     concat (map (\<lambda>t. map (\<lambda>r. (t_id t, t_name t))
                        (filter (\<lambda>r. r_team_id r = t_id t \<and> r_competition_id r = cid) (registrations db)))
                 (teams db))"

text \<open>
  The second query is written
  \<open>SELECT * FROM matches WHERE competition_id = ? AND status = "FINISHED"\<close>, with
  double quotes (the query of the live route writes \<open>'IN_PLAY'\<close> in single quotes).
  The SQLite that better-sqlite3 builds reads a double-quoted token as an identifier only,
  never as a string literal. Preparing the statement resolves the identifier among the
  columns of \<open>matches\<close> and throws when there is no such column; otherwise the
  statement compares \<open>status\<close> with the value of that column in the same row.
\<close>

datatype sql_value = SqlNull | SqlInt int | SqlText string

fun nullable :: "('a \<Rightarrow> sql_value) \<Rightarrow> 'a option \<Rightarrow> sql_value" where
  "nullable f None = SqlNull"
| "nullable f (Some x) = f x"

text \<open>The columns of table \<open>matches\<close> (db/schema.sql), by name.\<close>

definition matches_column :: "string \<Rightarrow> (match_row \<Rightarrow> sql_value) option" where
  "matches_column name =
     (if name = ''id'' then Some (\<lambda>m. SqlInt (m_id m))
      else if name = ''competition_id'' then Some (\<lambda>m. nullable SqlInt (competition_id m))
      else if name = ''home_team_id'' then Some (\<lambda>m. SqlInt (home_team_id m))
      else if name = ''away_team_id'' then Some (\<lambda>m. SqlInt (away_team_id m))
      else if name = ''date_time'' then Some (\<lambda>m. SqlText (date_time m))
      else if name = ''venue'' then Some (\<lambda>m. nullable SqlText (venue m))
      else if name = ''referee'' then Some (\<lambda>m. nullable SqlText (referee m))
      else if name = ''status'' then Some (\<lambda>m. SqlText (status m))
      else if name = ''home_score'' then Some (\<lambda>m. SqlInt (home_score m))
      else if name = ''away_score'' then Some (\<lambda>m. SqlInt (away_score m))
      else None)"

definition finished_matches :: "store \<Rightarrow> int \<Rightarrow> error + match_row list" where
  "finished_matches db cid =
     (case matches_column ''FINISHED'' of
        None \<Rightarrow> Inl (SqliteNoSuchColumn ''FINISHED'')
      | Some col \<Rightarrow>
          Inr (filter (\<lambda>m. competition_id m = Some cid \<and> SqlText (status m) = col m)
                 (matches db)))"

text \<open>
  The route: the first query, the table, then the second query, the loop and the sort. The
  handler has no \<open>try\<close>, so an exception of the second query is the outcome of the
  route.
\<close>

definition getStandings ::
  "(string \<Rightarrow> string \<Rightarrow> int) \<Rightarrow> store \<Rightarrow> int \<Rightarrow> error + standing list" where
  "getStandings lc db cid =
     (case finished_matches db cid of
        Inl e \<Rightarrow> Inl e
      | Inr ms \<Rightarrow> Inr (computeStandings lc (registered_teams db cid) ms))"

section \<open>The properties in the words of the specification\<close>

text \<open>The position of a status in the order SCHEDULED, IN\_PLAY, FINISHED.\<close>

definition status_rank :: "string \<Rightarrow> nat" where
  "status_rank s = (if s = ''SCHEDULED'' then 0 else if s = ''IN_PLAY'' then 1 else 2)"

text \<open>Row \<open>q\<close> is row \<open>p\<close> of the same player with no cumulative counter lower.\<close>

definition counters_le :: "player_row \<Rightarrow> player_row \<Rightarrow> bool" where
  "counters_le p q = (p_id q = p_id p \<and> appearances p \<le> appearances q \<and> goals p \<le> goals q
                      \<and> assists p \<le> assists q \<and> yellow_cards p \<le> yellow_cards q
                      \<and> red_cards p \<le> red_cards q)"

definition counters_mono :: "store \<Rightarrow> store \<Rightarrow> bool" where
  "counters_mono a b = list_all2 counters_le (players a) (players b)"

text \<open>
  The rows the specification prescribes after a finished match between two registered
  teams: \<open>home_row m h\<close> for the home team whose row was \<open>h\<close>, \<open>away_row m a\<close>
  for the away team whose row was \<open>a\<close>.
\<close>

definition home_row :: "match_row \<Rightarrow> standing \<Rightarrow> standing" where
  "home_row m h =
     h\<lparr>P := P h + 1,
       W := W h + (if home_score m > away_score m then 1 else 0),
       D := D h + (if home_score m = away_score m then 1 else 0),
       L := L h + (if home_score m < away_score m then 1 else 0),
       GF := GF h + home_score m,
       GA := GA h + away_score m,
       GD := (GF h + home_score m) - (GA h + away_score m),
       PTS := PTS h + (if home_score m > away_score m then 3
                       else if home_score m = away_score m then 1 else 0)\<rparr>"

definition away_row :: "match_row \<Rightarrow> standing \<Rightarrow> standing" where
  "away_row m a =
     a\<lparr>P := P a + 1,
       W := W a + (if away_score m > home_score m then 1 else 0),
       D := D a + (if home_score m = away_score m then 1 else 0),
       L := L a + (if away_score m < home_score m then 1 else 0),
       GF := GF a + away_score m,
       GA := GA a + home_score m,
       GD := (GF a + away_score m) - (GA a + home_score m),
       PTS := PTS a + (if away_score m > home_score m then 3
                       else if home_score m = away_score m then 1 else 0)\<rparr>"

text \<open>The arithmetic a standing row has to satisfy.\<close>

definition row_ok :: "standing \<Rightarrow> bool" where
  "row_ok r = (P r = W r + D r + L r \<and> PTS r = 3 * W r + D r \<and> GD r = GF r - GA r)"

text \<open>
  The key tuple (points, goal difference, goals for, name descending) of row \<open>a\<close> is
  lexicographically greater than or equal to that of row \<open>b\<close>; a name is "greater
  descending" when it sorts first under \<open>lc\<close>.
\<close>

definition key_ge :: "(string \<Rightarrow> string \<Rightarrow> int) \<Rightarrow> standing \<Rightarrow> standing \<Rightarrow> bool" where
  "key_ge lc a b =
     (PTS a > PTS b \<or> (PTS a = PTS b \<and>
       (GD a > GD b \<or> (GD a = GD b \<and>
         (GF a > GF b \<or> (GF a = GF b \<and> lc (team a) (team b) \<le> 0))))))"

text \<open>One possible \<open>lc\<close>: comparison of the names character by character, by character code.\<close>

fun code_compare :: "string \<Rightarrow> string \<Rightarrow> int" where
  "code_compare [] [] = 0"
| "code_compare [] (y # ys) = - 1"
| "code_compare (x # xs) [] = 1"
| "code_compare (x # xs) (y # ys) =
     (if (of_char x :: nat) < of_char y then - 1
      else if (of_char y :: nat) < of_char x then 1
      else code_compare xs ys)"

text \<open>
  Another possible \<open>lc\<close>: the same comparison after dropping the control characters
  (codes below 32), as a collation that ignores them does. It is 0 on two names that differ
  in such characters only.
\<close>

definition printable :: "string \<Rightarrow> string" where
  "printable a = filter (\<lambda>c. 32 \<le> (of_char c :: nat)) a"

definition compare_ignoring_controls :: "string \<Rightarrow> string \<Rightarrow> int" where
  "compare_ignoring_controls a b = code_compare (printable a) (printable b)"

text \<open>
  Facts about the store that the schema and the routes maintain: the two sides of a match
  differ (\<open>MatchSchema\<close>), and player ids are the positive numbers handed out by
  \<open>AUTOINCREMENT\<close>.
\<close>

definition sides_differ :: "store \<Rightarrow> bool" where
  "sides_differ db = list_all (\<lambda>m. home_team_id m \<noteq> away_team_id m) (matches db)"

definition player_ids_positive :: "store \<Rightarrow> bool" where
  "player_ids_positive db = (0 \<le> seq_players db \<and> list_all (\<lambda>p. 0 < p_id p) (players db))"

section \<open>Example data (db/seed.sql)\<close>

text \<open>
  The rows the seed script inserts into an empty schema. The seeded match is dated one day
  after the moment the script runs; a fixed date stands in for it.
\<close>

definition new_player :: "int \<Rightarrow> int \<Rightarrow> string \<Rightarrow> string \<Rightarrow> int \<Rightarrow> string \<Rightarrow> player_row" where
  "new_player i t n pos a country =
     \<lparr>p_id = i, p_team_id = t, full_name = n, position = pos, age = a, nationality = Some country,
       appearances = 0, goals = 0, assists = 0, yellow_cards = 0, red_cards = 0\<rparr>"

definition seed_match :: match_row where
  "seed_match =
     \<lparr>m_id = 1, competition_id = Some 1, home_team_id = 1, away_team_id = 2,
       date_time = ''2026-01-02 18:00:00'', venue = Some ''Falcon Arena'', referee = Some ''Ref A'',
       status = ''SCHEDULED'', home_score = 0, away_score = 0\<rparr>"

definition seed_store :: store where
  "seed_store =
    \<lparr>teams =
       [\<lparr>t_id = 1, t_name = ''Falcon FC'', coach_name = Some ''A. Kovacs'',
          founded_year = Some 1998, stadium = Some ''Falcon Arena''\<rparr>,
        \<lparr>t_id = 2, t_name = ''River United'', coach_name = Some ''M. Horvath'',
          founded_year = Some 2003, stadium = Some ''River Park''\<rparr>],
     players =
       [new_player 1 1 ''Janos Toth'' ''GK'' 28 ''HU'',
        new_player 2 1 ''Bence Nagy'' ''DF'' 24 ''HU'',
        new_player 3 1 ''Milan Popov'' ''FW'' 26 ''RS'',
        new_player 4 2 ''Adam Szabo'' ''GK'' 29 ''HU'',
        new_player 5 2 ''David Kiss'' ''MF'' 22 ''HU'',
        new_player 6 2 ''Luka Petrovic'' ''FW'' 25 ''RS''],
     competitions = [1, 2],
     registrations =
       [\<lparr>r_team_id = 1, r_competition_id = 1\<rparr>, \<lparr>r_team_id = 2, r_competition_id = 1\<rparr>],
     matches = [seed_match],
     match_events = [],
     seq_players = 6, seq_matches = 1, seq_match_events = 0\<rparr>"

definition event :: "int \<Rightarrow> string \<Rightarrow> int option \<Rightarrow> int option \<Rightarrow> event_body" where
  "event mi ty pid tid =
     \<lparr>b_minute = mi, b_type = ty, b_player_id = pid, b_team_id = tid, b_notes = None\<rparr>"

text \<open>Milan Popov (player 3 of the home team) scores for the home team in minute 10.\<close>

definition scorer_store :: store where
  "scorer_store = snd (postEvent seed_store 1 (event 10 ''GOAL'' (Some 3) (Some 1)))"

definition finished_store :: store where
  "finished_store = snd (postStatus scorer_store 1 ''FINISHED'')"

text \<open>
  Two registered teams whose names differ as byte strings, in a control character only.
\<close>

definition tied_teams :: "(int \<times> string) list" where
  "tied_teams = [(3, ''Ab'' @ [CHR 0x01]), (4, ''Ab'')]"

text \<open>
  The body \<open>{"appearances": 0, "goals": 0, "assists": 0, "yellow_cards": 0, "red_cards": 0}\<close>.
\<close>

definition reset_counters :: player_patch where
  "reset_counters =
     \<lparr>u_team_id = None, u_full_name = None, u_position = None, u_age = None,
       u_nationality = None, u_appearances = Some 0, u_goals = Some 0, u_assists = Some 0,
       u_yellow_cards = Some 0, u_red_cards = Some 0\<rparr>"

section \<open>Reading rows back after an update\<close>

lemma find_map_upd:
  assumes "\<And>x. k (f x) = k x"
  shows "find (\<lambda>x. k x = i) (map (\<lambda>x. if k x = i then f x else x) xs) =
         map_option f (find (\<lambda>x. k x = i) xs)"
  by (induction xs) (simp_all add: assms)

lemma get_match_cong: "matches a = matches b \<Longrightarrow> get_match a mid = get_match b mid"
  by (simp add: get_match_def)


lemma get_match_update_scores:
  "get_match (update_scores db hi ai mid) mid =
     map_option (\<lambda>m. m\<lparr>home_score := home_score m + hi, away_score := away_score m + ai\<rparr>)
       (get_match db mid)"
  unfolding get_match_def update_scores_def
  by (simp add: find_map_upd)



lemma update_scores_players: "players (update_scores db hi ai mid) = players db"
  by (simp add: update_scores_def)

section \<open>The event route, step by step\<close>

lemma insert_match_event_Inr:
  assumes "insert_match_event db mid minute ty pid tid notes = Inr (eid, db1)"
  shows "matches db1 = matches db" and "players db1 = players db" and "teams db1 = teams db"
    and "mid \<in> set (map m_id (matches db))" and "fk_ok pid (map p_id (players db))"
    and "0 \<le> minute \<and> minute \<le> 130"
  using assms by (auto simp: insert_match_event_def Let_def split: if_splits)

lemma insert_match_event_bad_minute:
  "minute < 0 \<or> 130 < minute \<Longrightarrow>
   insert_match_event db mid minute ty pid tid notes = Inl (SqliteError CHECK)"
  unfolding insert_match_event_def
  by (simp only: if_True not_le linorder_not_less de_Morgan_conj)

lemma when_player_False [simp]: "when_player pid False stmt db = db"
  by (cases pid) simp_all

lemma when_player_matches:
  "matches (when_player pid c inc_goals db) = matches db"
  "matches (when_player pid c inc_yellow_cards db) = matches db"
  "matches (when_player pid c inc_red_cards db) = matches db"
  by (cases pid; simp add: inc_goals_def inc_yellow_cards_def inc_red_cards_def)+

lemma when_player_players_cong:
  "players a = players b \<Longrightarrow>
   players (when_player pid c inc_goals a) = players (when_player pid c inc_goals b)"
  by (cases pid) (simp_all add: inc_goals_def)

lemma postEvent_InrE:
  assumes "postEvent db mid body = (Inr eid, db')"
  obtains db1 db2 where
    "b_type body \<in> set event_types"
    "insert_match_event db mid (b_minute body) (b_type body) (b_player_id body)
       (b_team_id body) (b_notes body) = Inr (eid, db1)"
    "goal_block db1 mid (b_type body) (b_player_id body) (b_team_id body) = Inr db2"
    "db' = when_player (b_player_id body) (b_type body = ''RED'') inc_red_cards
             (when_player (b_player_id body) (b_type body = ''YELLOW'') inc_yellow_cards db2)"
  using assms unfolding postEvent_def
  by (auto split: if_splits sum.splits prod.splits)

lemma postEvent_goal_matches:
  assumes ok: "postEvent db mid body = (Inr eid, db')"
    and ty: "b_type body = ''GOAL'' \<or> b_type body = ''OWN_GOAL''"
    and m: "get_match db mid = Some m"
  shows "matches db' =
         matches (update_scores db (homeInc m (b_type body) (b_team_id body))
                    (awayInc m (b_type body) (b_team_id body)) mid)"
proof -
  from ok obtain db1 db2 where
    ins: "insert_match_event db mid (b_minute body) (b_type body) (b_player_id body)
       (b_team_id body) (b_notes body) = Inr (eid, db1)"
    and gb: "goal_block db1 mid (b_type body) (b_player_id body) (b_team_id body) = Inr db2"
    and db': "db' = when_player (b_player_id body) (b_type body = ''RED'') inc_red_cards
             (when_player (b_player_id body) (b_type body = ''YELLOW'') inc_yellow_cards db2)"
    by (rule postEvent_InrE)
  have m1: "matches db1 = matches db" using ins by (rule insert_match_event_Inr)
  then have "get_match db1 mid = Some m" using m by (simp add: get_match_def)
  with gb ty have "db2 = when_player (b_player_id body) (b_type body = ''GOAL'') inc_goals
         (update_scores db1 (homeInc m (b_type body) (b_team_id body))
                    (awayInc m (b_type body) (b_team_id body)) mid)"
    by (auto simp: goal_block_def)
  then have "matches db' = matches (update_scores db1 (homeInc m (b_type body) (b_team_id body))
                    (awayInc m (b_type body) (b_team_id body)) mid)"
    using db' by (simp add: when_player_matches)
  with m1 show ?thesis by (simp add: update_scores_def)
qed

lemma goal_block_players:
  assumes "goal_block db1 mid ty pid tid = Inr db2"
  shows "players db2 = players (when_player pid (ty = ''GOAL'') inc_goals db1)"
proof (cases "ty = ''GOAL'' \<or> ty = ''OWN_GOAL''")
  case True
  with assms obtain m where "db2 = when_player pid (ty = ''GOAL'') inc_goals
                   (update_scores db1 (homeInc m ty tid) (awayInc m ty tid) mid)"
    by (auto simp: goal_block_def split: option.splits)
  then show ?thesis
    using when_player_players_cong[OF update_scores_players] by simp
next
  case False
  with assms show ?thesis by (auto simp: goal_block_def)
qed




section \<open>Scores and goal tallies\<close>

text \<open>
  Claim C1. When a GOAL or OWN\_GOAL event is applied to a match, the match row read back is
  the old row with \<open>home_score\<close> raised by \<open>homeInc\<close> and \<open>away_score\<close> by
  \<open>awayInc\<close>, where \<open>homeInc\<close> is 1 exactly when (team id = home team id) differs
  from (type = OWN\_GOAL) and 0 otherwise, and likewise \<open>awayInc\<close> with the away team id.
  In particular, on a match whose two sides differ, a GOAL credited to the home team raises
  \<open>home_score\<close> by 1 and leaves \<open>away_score\<close> as it was, and an OWN\_GOAL credited to
  the home team raises \<open>away_score\<close> by 1.
\<close>

theorem event_score_xor_rule:
  assumes ok: "postEvent db mid body = (Inr eid, db')"
    and ty: "b_type body = ''GOAL'' \<or> b_type body = ''OWN_GOAL''"
    and m: "get_match db mid = Some m"
  shows "get_match db' mid =
           Some (m\<lparr>home_score := home_score m + homeInc m (b_type body) (b_team_id body),
                   away_score := away_score m + awayInc m (b_type body) (b_team_id body)\<rparr>)
       \<and> homeInc m (b_type body) (b_team_id body) =
           (if (b_team_id body = Some (home_team_id m)) \<noteq> (b_type body = ''OWN_GOAL'') then 1 else 0)
       \<and> awayInc m (b_type body) (b_team_id body) =
           (if (b_team_id body = Some (away_team_id m)) \<noteq> (b_type body = ''OWN_GOAL'') then 1 else 0)
       \<and> (b_type body = ''GOAL'' \<and> b_team_id body = Some (home_team_id m)
            \<and> home_team_id m \<noteq> away_team_id m \<longrightarrow>
            get_match db' mid = Some (m\<lparr>home_score := home_score m + 1\<rparr>))
       \<and> (b_type body = ''OWN_GOAL'' \<and> b_team_id body = Some (home_team_id m)
            \<and> home_team_id m \<noteq> away_team_id m \<longrightarrow>
            get_match db' mid = Some (m\<lparr>away_score := away_score m + 1\<rparr>))"
proof -
  have g: "get_match db' mid =
           Some (m\<lparr>home_score := home_score m + homeInc m (b_type body) (b_team_id body),
                   away_score := away_score m + awayInc m (b_type body) (b_team_id body)\<rparr>)"
    using get_match_cong[OF postEvent_goal_matches[OF ok ty m]] m
    by (simp add: get_match_update_scores)
  show ?thesis
    using g by (auto simp: homeInc_def awayInc_def xor_bit_def one_if_def)
qed

theorem event_score_xor_rule_witness:
  "get_match (snd (postEvent seed_store 1 (event 10 ''GOAL'' (Some 3) (Some 1)))) 1
     = Some (seed_match\<lparr>home_score := 1\<rparr>)
   \<and> get_match (snd (postEvent seed_store 1 (event 55 ''OWN_GOAL'' (Some 2) (Some 1)))) 1
     = Some (seed_match\<lparr>away_score := 1\<rparr>)"
proof -
  have m: "get_match seed_store 1 = Some seed_match"
    by code_simp
  have ok1: "postEvent seed_store 1 (event 10 ''GOAL'' (Some 3) (Some 1))
             = (Inr 1, snd (postEvent seed_store 1 (event 10 ''GOAL'' (Some 3) (Some 1))))"
    by (rule prod_eqI) (code_simp, simp)
  have ok2: "postEvent seed_store 1 (event 55 ''OWN_GOAL'' (Some 2) (Some 1))
             = (Inr 1, snd (postEvent seed_store 1 (event 55 ''OWN_GOAL'' (Some 2) (Some 1))))"
    by (rule prod_eqI) (code_simp, simp)
  have ty1: "b_type (event 10 ''GOAL'' (Some 3) (Some 1)) = ''GOAL''
             \<or> b_type (event 10 ''GOAL'' (Some 3) (Some 1)) = ''OWN_GOAL''"
    by (simp add: event_def)
  have ty2: "b_type (event 55 ''OWN_GOAL'' (Some 2) (Some 1)) = ''GOAL''
             \<or> b_type (event 55 ''OWN_GOAL'' (Some 2) (Some 1)) = ''OWN_GOAL''"
    by (simp add: event_def)
  show ?thesis
    using event_score_xor_rule[OF ok1 ty1 m] event_score_xor_rule[OF ok2 ty2 m]
    by (simp add: event_def seed_match_def)
qed

lemma postEvent_own_goal_unmatched:
  assumes ok: "postEvent db mid body = (Inr eid, db')"
    and ty: "b_type body = ''OWN_GOAL''"
    and m: "get_match db mid = Some m"
    and neither: "b_team_id body \<noteq> Some (home_team_id m)"
                 "b_team_id body \<noteq> Some (away_team_id m)"
  shows "get_match db' mid = Some (m\<lparr>home_score := home_score m + 1,
                                        away_score := away_score m + 1\<rparr>)"
proof -
  have "matches db' = matches (update_scores db 1 1 mid)"
    using postEvent_goal_matches[OF ok _ m] ty neither
    by (simp add: homeInc_def awayInc_def xor_bit_def one_if_def)
  then have "get_match db' mid = get_match (update_scores db 1 1 mid) mid"
    by (rule get_match_cong)
  with m show ?thesis
    by (simp add: get_match_update_scores)
qed

text \<open>
  Claim C2, at an own goal whose team id is null, in the seeded match (home team 1, away
  team 2, score 0-0): the event is recorded, and both scores go up by 1.
\<close>

theorem own_goal_unmatched_team_raises_both_scores:
  "get_match seed_store 1 = Some seed_match
   \<and> postEvent seed_store 1 (event 55 ''OWN_GOAL'' None None)
       = (Inr 1,
          seed_store\<lparr>matches := [seed_match\<lparr>home_score := 1, away_score := 1\<rparr>],
                      match_events := [\<lparr>e_id = 1, e_match_id = 1, e_minute = 55,
                                         e_type = ''OWN_GOAL'', e_player_id = None,
                                         e_team_id = None, e_notes = None\<rparr>],
                      seq_match_events := 1\<rparr>)"
  by code_simp





section \<open>Rejected events\<close>

text \<open>
  Claim C8, as the code has it. The event route fails both when \<open>type\<close> is not one of
  the six recognised values and when \<open>type\<close> is recognised but \<open>minute\<close> lies
  outside 0..130, and either way the store returned is the store given: no event row is
  added and no match or player row is changed. Only the first failure is a validation
  response of the handler (400, "Bad event type"); the second is the exception the store
  throws on the violated CHECK constraint of \<open>minute\<close>, which the handler does not
  catch.
\<close>

theorem postEvent_rejects_invalid:
  "(b_type body \<notin> set event_types \<longrightarrow>
      postEvent db mid body = (Inl (Http400 ''Bad event type''), db))
   \<and> (b_type body \<in> set event_types \<and> (b_minute body < 0 \<or> 130 < b_minute body) \<longrightarrow>
      postEvent db mid body = (Inl (SqliteError CHECK), db))"
proof (intro conjI impI)
  assume "b_type body \<notin> set event_types"
  then show "postEvent db mid body = (Inl (Http400 ''Bad event type''), db)"
    unfolding postEvent_def by (rule if_P)
next
  assume a: "b_type body \<in> set event_types \<and> (b_minute body < 0 \<or> 130 < b_minute body)"
  then have "insert_match_event db mid (b_minute body) (b_type body) (b_player_id body)
               (b_team_id body) (b_notes body) = Inl (SqliteError CHECK)"
    by (simp only: insert_match_event_bad_minute)
  moreover have "\<not> b_type body \<notin> set event_types" using a by blast
  ultimately show "postEvent db mid body = (Inl (SqliteError CHECK), db)"
    unfolding postEvent_def by (simp only: if_not_P sum.case if_False)
qed

theorem postEvent_rejects_invalid_witness:
  "postEvent seed_store 1 (event 10 ''PENALTY'' (Some 3) (Some 1))
     = (Inl (Http400 ''Bad event type''), seed_store)
   \<and> postEvent seed_store 1 (event 131 ''GOAL'' (Some 3) (Some 1))
     = (Inl (SqliteError CHECK), seed_store)
   \<and> postEvent seed_store 1 (event (- 1) ''GOAL'' (Some 3) (Some 1))
     = (Inl (SqliteError CHECK), seed_store)"
  using postEvent_rejects_invalid[of "event 10 ''PENALTY'' (Some 3) (Some 1)" seed_store 1]
        postEvent_rejects_invalid[of "event 131 ''GOAL'' (Some 3) (Some 1)" seed_store 1]
        postEvent_rejects_invalid[of "event (- 1) ''GOAL'' (Some 3) (Some 1)" seed_store 1]
  by (simp add: event_def event_types_def)

text \<open>
  Claim C8 as stated fails: minute 131 with a recognised type does not end in a validation
  response of the handler, as an unrecognised type does (status 400), but in the uncaught
  CHECK exception of the store (status 500).
\<close>

theorem minute_failure_counterexample:
  "fst (postEvent seed_store 1 (event 131 ''GOAL'' (Some 3) (Some 1))) = Inl (SqliteError CHECK)
   \<and> response_status (SqliteError CHECK) = 500
   \<and> fst (postEvent seed_store 1 (event 10 ''PENALTY'' (Some 3) (Some 1)))
       = Inl (Http400 ''Bad event type'')
   \<and> response_status (Http400 ''Bad event type'') = 400"
  by (simp add: postEvent_def insert_match_event_def event_def event_types_def)

section \<open>The example stores, evaluated\<close>

lemma scorer_store_eq:
  "scorer_store =
     seed_store\<lparr>players := map (\<lambda>p. if p_id p = 3 then p\<lparr>goals := 1\<rparr> else p) (players seed_store),
                 matches := [seed_match\<lparr>home_score := 1\<rparr>],
                 match_events := [\<lparr>e_id = 1, e_match_id = 1, e_minute = 10, e_type = ''GOAL'',
                                    e_player_id = Some 3, e_team_id = Some 1, e_notes = None\<rparr>],
                 seq_match_events := 1\<rparr>"
  by code_simp

lemma finished_store_eq:
  "finished_store =
     scorer_store\<lparr>matches := [seed_match\<lparr>status := ''FINISHED'', home_score := 1\<rparr>]\<rparr>"
  unfolding finished_store_def scorer_store_eq by code_simp

lemma get_player_scorer_store:
  "get_player scorer_store 3 = Some ((new_player 3 1 ''Milan Popov'' ''FW'' 26 ''RS'')\<lparr>goals := 1\<rparr>)"
  unfolding scorer_store_eq by (simp add: get_player_def seed_store_def new_player_def)

lemma putPlayer_scorer_store:
  "fst (putPlayer scorer_store 3 reset_counters) = Inr 1"
  unfolding scorer_store_eq
  by (simp add: putPlayer_def reset_counters_def fields_length_def is_given_def seed_store_def
        new_player_def set_fields_def set_col_def player_checks_def positions_def)

section \<open>Status updates\<close>

lemma get_match_postStatus:
  "st \<in> set statuses \<Longrightarrow>
   get_match (snd (postStatus db mid st)) mid =
     map_option (\<lambda>m. m\<lparr>status := st\<rparr>) (get_match db mid)"
  unfolding get_match_def postStatus_def by (simp add: find_map_upd)

text \<open>
  Claim C6, as the code has it. The status route enforces no order between the old and the
  new status: given any of the three values SCHEDULED, IN\_PLAY, FINISHED it sets the
  match's status to that value whatever the current status is, and it rejects every other
  value with "Bad status", leaving the store unchanged.
\<close>

theorem postStatus_sets_any_status:
  "(st \<in> set statuses \<and> get_match db mid = Some m \<longrightarrow>
      get_match (snd (postStatus db mid st)) mid = Some (m\<lparr>status := st\<rparr>))
   \<and> (st \<notin> set statuses \<longrightarrow> postStatus db mid st = (Inl (Http400 ''Bad status''), db))"
  by (simp add: get_match_postStatus) (simp add: postStatus_def)

theorem postStatus_sets_any_status_witness:
  "get_match (snd (postStatus finished_store 1 ''IN_PLAY'')) 1
     = Some (seed_match\<lparr>status := ''IN_PLAY'', home_score := 1\<rparr>)
   \<and> postStatus finished_store 1 ''ABANDONED'' = (Inl (Http400 ''Bad status''), finished_store)"
proof -
  have m: "get_match finished_store 1 = Some (seed_match\<lparr>status := ''FINISHED'', home_score := 1\<rparr>)"
    unfolding finished_store_eq by (simp add: get_match_def seed_match_def)
  show ?thesis
    using postStatus_sets_any_status[of "''IN_PLAY''" finished_store 1
            "seed_match\<lparr>status := ''FINISHED'', home_score := 1\<rparr>"]
          postStatus_sets_any_status[of "''ABANDONED''" finished_store 1]
          m
    by (simp add: statuses_def seed_match_def)
qed

text \<open>
  Claim C6 as stated fails: the seeded match, once FINISHED, is set back to SCHEDULED by the
  status route, so its status moves backward in the order SCHEDULED, IN\_PLAY, FINISHED.
\<close>

theorem status_backward_counterexample:
  "map_option status (get_match finished_store 1) = Some ''FINISHED''
   \<and> fst (postStatus finished_store 1 ''SCHEDULED'') = Inr 1
   \<and> map_option status (get_match (snd (postStatus finished_store 1 ''SCHEDULED'')) 1)
       = Some ''SCHEDULED''
   \<and> status_rank ''SCHEDULED'' < status_rank ''FINISHED''"
  unfolding finished_store_eq
  by (simp add: get_match_def postStatus_def statuses_def status_rank_def seed_match_def)

section \<open>Player counters\<close>

lemma counters_le_refl: "counters_le p p"
  by (simp add: counters_le_def)

lemma counters_mono_same: "players a = players b \<Longrightarrow> counters_mono a b"
  by (simp add: counters_mono_def list_all2_same counters_le_refl)

lemma counters_mono_trans:
  assumes "counters_mono a b" and "counters_mono b c"
  shows "counters_mono a c"
proof -
  have "counters_le x y \<Longrightarrow> counters_le y z \<Longrightarrow> counters_le x z" for x y z
    by (auto simp: counters_le_def)
  then have "list_all2 counters_le (players a) (players c)"
    using assms unfolding counters_mono_def by (rule list_all2_trans)
  then show ?thesis by (simp add: counters_mono_def)
qed

lemma counters_mono_inc:
  "counters_mono db (inc_goals db pid)"
  "counters_mono db (inc_yellow_cards db pid)"
  "counters_mono db (inc_red_cards db pid)"
  by (simp_all add: counters_mono_def inc_goals_def inc_yellow_cards_def inc_red_cards_def
        list_all2_map2 list_all2_same counters_le_def)

lemma counters_mono_when_player:
  assumes "\<And>d i. counters_mono d (stmt d i)"
  shows "counters_mono db (when_player pid c stmt db)"
  by (cases pid) (simp_all add: assms counters_mono_same)

lemma counters_mono_goal_block:
  assumes "goal_block db mid ty pid tid = Inr db2"
  shows "counters_mono db db2"
proof -
  have "counters_mono db (when_player pid (ty = ''GOAL'') inc_goals db)"
    by (rule counters_mono_when_player) (rule counters_mono_inc)
  moreover have "counters_mono (when_player pid (ty = ''GOAL'') inc_goals db) db2"
    by (rule counters_mono_same) (simp add: goal_block_players[OF assms])
  ultimately show ?thesis by (rule counters_mono_trans)
qed

lemma postEvent_counters_mono: "counters_mono db (snd (postEvent db mid body))"
proof (cases "b_type body \<in> set event_types")
  case False
  then show ?thesis by (simp add: postEvent_def counters_mono_same)
next
  case ty: True
  show ?thesis
  proof (cases "insert_match_event db mid (b_minute body) (b_type body) (b_player_id body)
               (b_team_id body) (b_notes body)")
    case (Inl e)
    with ty show ?thesis by (simp add: postEvent_def counters_mono_same)
  next
    case (Inr r)
    obtain eid db1 where r: "r = (eid, db1)" by (cases r)
    have p1: "players db1 = players db" using Inr r insert_match_event_Inr(2) by blast
    show ?thesis
    proof (cases "goal_block db1 mid (b_type body) (b_player_id body) (b_team_id body)")
      case (Inl e)
      with ty Inr r p1 show ?thesis by (simp add: postEvent_def counters_mono_same)
    next
      case gb: (Inr db2)
      have a: "counters_mono db db2"
        using counters_mono_trans[OF counters_mono_same[OF p1[symmetric]]
                counters_mono_goal_block[OF gb]] .
      have b: "counters_mono db2
                 (when_player (b_player_id body) (b_type body = ''YELLOW'') inc_yellow_cards db2)"
        by (rule counters_mono_when_player) (rule counters_mono_inc)
      have c: "counters_mono
                 (when_player (b_player_id body) (b_type body = ''YELLOW'') inc_yellow_cards db2)
                 (when_player (b_player_id body) (b_type body = ''RED'') inc_red_cards
                    (when_player (b_player_id body) (b_type body = ''YELLOW'') inc_yellow_cards db2))"
        by (rule counters_mono_when_player) (rule counters_mono_inc)
      have "snd (postEvent db mid body) =
              when_player (b_player_id body) (b_type body = ''RED'') inc_red_cards
                (when_player (b_player_id body) (b_type body = ''YELLOW'') inc_yellow_cards db2)"
        using ty Inr r gb by (simp add: postEvent_def)
      then show ?thesis using counters_mono_trans[OF a counters_mono_trans[OF b c]] by simp
    qed
  qed
qed

lemma is_given_0: "is_given v = 0 \<longleftrightarrow> v = None"
  by (cases v) (simp_all add: is_given_def)

lemma set_fields_no_fields: "fields_length u = 0 \<Longrightarrow> set_fields u p = p"
  by (simp add: fields_length_def is_given_0 set_fields_def set_col_def)

lemma get_player_putPlayer:
  assumes "fst (putPlayer db pid u) = Inr n"
  shows "get_player (snd (putPlayer db pid u)) pid = map_option (set_fields u) (get_player db pid)"
proof (cases "fields_length u = 0")
  case True
  then have "set_fields u = (\<lambda>p. p)"
    by (intro ext set_fields_no_fields)
  with True show ?thesis
    by (simp add: putPlayer_def option.map_ident)
next
  case False
  have "p_id (set_fields u x) = p_id x" for x by (simp add: set_fields_def)
  then show ?thesis
    using assms False unfolding get_player_def putPlayer_def
    by (auto simp: Let_def find_map_upd split: if_splits)
qed

text \<open>
  Claim C7, as the code has it. Every call of the event route leaves each player's row with
  the same id and no cumulative counter lower than before. The counters are not mutated by
  the event route alone: a successful player update (PUT) turns the player's row into the
  row with every field present in the body overwritten, and each of the five counters
  present in the body takes the value given there, whatever was stored.
\<close>

theorem counters_event_monotone_put_overwrites:
  "list_all2 counters_le (players db) (players (snd (postEvent db mid body)))
   \<and> (fst (putPlayer db pid u) = Inr n \<and> get_player db pid = Some p \<longrightarrow>
        get_player (snd (putPlayer db pid u)) pid = Some (set_fields u p))
   \<and> (u_appearances u = Some g \<longrightarrow> appearances (set_fields u p) = g)
   \<and> (u_goals u = Some g \<longrightarrow> goals (set_fields u p) = g)
   \<and> (u_assists u = Some g \<longrightarrow> assists (set_fields u p) = g)
   \<and> (u_yellow_cards u = Some g \<longrightarrow> yellow_cards (set_fields u p) = g)
   \<and> (u_red_cards u = Some g \<longrightarrow> red_cards (set_fields u p) = g)"
proof -
  have "list_all2 counters_le (players db) (players (snd (postEvent db mid body)))"
    using postEvent_counters_mono[of db mid body] by (simp add: counters_mono_def)
  moreover have "fst (putPlayer db pid u) = Inr n \<and> get_player db pid = Some p \<longrightarrow>
        get_player (snd (putPlayer db pid u)) pid = Some (set_fields u p)"
    using get_player_putPlayer[of db pid u n] by simp
  ultimately show ?thesis
    by (simp add: set_fields_def set_col_def)
qed

theorem counters_event_monotone_put_overwrites_witness:
  "list_all2 counters_le (players seed_store) (players scorer_store)
   \<and> get_player (snd (putPlayer scorer_store 3 reset_counters)) 3
       = Some (new_player 3 1 ''Milan Popov'' ''FW'' 26 ''RS'')"
proof -
  note ok = putPlayer_scorer_store
  note p = get_player_scorer_store
  show ?thesis
    using counters_event_monotone_put_overwrites[of seed_store 1
            "event 10 ''GOAL'' (Some 3) (Some 1)"]
          counters_event_monotone_put_overwrites[of scorer_store _ _ 3 reset_counters 1
            "(new_player 3 1 ''Milan Popov'' ''FW'' 26 ''RS'')\<lparr>goals := 1\<rparr>" 0]
          ok p
    by (simp add: scorer_store_def[symmetric] reset_counters_def set_fields_def set_col_def
          new_player_def)
qed

text \<open>
  Claim C7 as stated fails: after Milan Popov's goal his counter is 1, and a body that sets
  the counters to 0, sent to the player update route, puts it back to 0.
\<close>

theorem counters_put_counterexample:
  "map_option goals (get_player scorer_store 3) = Some 1
   \<and> fst (putPlayer scorer_store 3 reset_counters) = Inr 1
   \<and> map_option goals (get_player (snd (putPlayer scorer_store 3 reset_counters)) 3) = Some 0"
proof -
  have "get_player (snd (putPlayer scorer_store 3 reset_counters)) 3
          = map_option (set_fields reset_counters) (get_player scorer_store 3)"
    using putPlayer_scorer_store by (rule get_player_putPlayer)
  then have "map_option goals (get_player (snd (putPlayer scorer_store 3 reset_counters)) 3) = Some 0"
    by (simp add: get_player_scorer_store reset_counters_def set_fields_def set_col_def)
  then show ?thesis
    by (simp add: putPlayer_scorer_store get_player_scorer_store)
qed

section \<open>The standings table\<close>

lemma Map_get_modify:
  "Map_get (Map_modify k f t) k' = (if k' = k then map_option f (Map_get t k) else Map_get t k')"
  by (induction k f t rule: Map_modify.induct) auto

lemma keys_Map_modify [simp]: "map fst (Map_modify k f t) = map fst t"
  by (induction k f t rule: Map_modify.induct) auto

lemma keys_Map_set: "set (map fst (Map_set k v t)) = insert k (set (map fst t))"
  by (induction k v t rule: Map_set.induct) auto

lemma distinct_Map_set: "distinct (map fst t) \<Longrightarrow> distinct (map fst (Map_set k v t))"
proof (induction k v t rule: Map_set.induct)
  case (1 k v)
  then show ?case by simp
next
  case (2 k v k' v' es)
  then show ?case
    using keys_Map_set[of k v es] by auto
qed

lemma Map_get_None_iff: "Map_get t k = None \<longleftrightarrow> k \<notin> set (map fst t)"
  by (induction t k rule: Map_get.induct) auto

lemma Map_get_Some_iff:
  "distinct (map fst t) \<Longrightarrow> Map_get t k = Some r \<longleftrightarrow> (k, r) \<in> set t"
proof (induction t k rule: Map_get.induct)
  case (1 k)
  then show ?case by simp
next
  case (2 k' v' es k)
  then show ?case by (auto simp: image_iff)
qed

lemma keys_tally [simp]: "map fst (tally t m) = map fst t"
  by (simp add: tally_def Let_def)

lemma keys_foldl_tally [simp]: "map fst (foldl tally t ms) = map fst t"
  by (induction ms arbitrary: t) simp_all

lemma distinct_new_table_aux:
  "distinct (map fst acc) \<Longrightarrow>
   distinct (map fst (foldl (\<lambda>tbl t. Map_set (fst t) (zero_row t) tbl) acc ts))"
  by (induction ts arbitrary: acc) (simp_all add: distinct_Map_set)

lemma distinct_new_table: "distinct (map fst (new_table ts))"
  unfolding new_table_def by (rule distinct_new_table_aux) simp

lemma keys_new_table_aux:
  "set (map fst (foldl (\<lambda>tbl t. Map_set (fst t) (zero_row t) tbl) acc ts))
     = set (map fst acc) \<union> set (map fst ts)"
proof (induction ts arbitrary: acc)
  case Nil
  then show ?case by simp
next
  case (Cons t ts)
  show ?case
    using Cons.IH[of "Map_set (fst t) (zero_row t) acc"] keys_Map_set[of "fst t" "zero_row t" acc]
    by auto
qed

lemma keys_new_table: "set (map fst (new_table ts)) = set (map fst ts)"
  unfolding new_table_def using keys_new_table_aux[of "[]" ts] by simp

lemma keys_loop: "set (map fst (foldl tally (new_table ts) ms)) = set (map fst ts)"
  by (simp only: keys_foldl_tally keys_new_table)

lemma tally_home:
  assumes "Map_get t (home_team_id m) = Some h" "Map_get t (away_team_id m) = Some a"
    and "home_team_id m \<noteq> away_team_id m"
  shows "Map_get (tally t m) (home_team_id m) = Some (home_row m h)"
  using assms by (simp add: tally_def Let_def Map_get_modify home_row_def)

lemma tally_away:
  assumes "Map_get t (home_team_id m) = Some h" "Map_get t (away_team_id m) = Some a"
    and "home_team_id m \<noteq> away_team_id m"
  shows "Map_get (tally t m) (away_team_id m) = Some (away_row m a)"
  using assms by (simp add: tally_def Let_def Map_get_modify away_row_def)

lemma tally_other:
  assumes "k \<noteq> home_team_id m" "k \<noteq> away_team_id m"
  shows "Map_get (tally t m) k = Map_get t k"
  using assms by (simp add: tally_def Let_def Map_get_modify)

lemma set_Map_set: "set (Map_set k v t) \<subseteq> insert (k, v) (set t)"
  by (induction k v t rule: Map_set.induct) auto

lemma new_table_rows_aux:
  "(k, r) \<in> set (foldl (\<lambda>tbl t. Map_set (fst t) (zero_row t) tbl) acc ts) \<Longrightarrow>
   (k, r) \<in> set acc \<or> (\<exists>t \<in> set ts. k = fst t \<and> r = zero_row t)"
proof (induction ts arbitrary: acc)
  case Nil
  then show ?case by simp
next
  case (Cons t ts)
  from Cons.IH[of "Map_set (fst t) (zero_row t) acc"] Cons.prems
  have "(k, r) \<in> set (Map_set (fst t) (zero_row t) acc)
        \<or> (\<exists>t \<in> set ts. k = fst t \<and> r = zero_row t)"
    by simp
  then show ?case
    using set_Map_set[of "fst t" "zero_row t" acc] by auto
qed

lemma new_table_rows:
  "(k, r) \<in> set (new_table ts) \<Longrightarrow> \<exists>t \<in> set ts. k = fst t \<and> r = zero_row t"
  unfolding new_table_def using new_table_rows_aux[of k r "[]" ts] by simp

lemma row_ok_zero_row: "row_ok (zero_row t)"
  by (simp add: row_ok_def zero_row_def)

lemma tally_row_ok:
  assumes "\<And>k r. Map_get t k = Some r \<Longrightarrow> row_ok r"
    and "Map_get (tally t m) k = Some r"
  shows "row_ok r"
proof (cases "Map_get t (home_team_id m) = None \<or> Map_get t (away_team_id m) = None")
  case True
  with assms show ?thesis by (simp add: tally_def)
next
  case False
  then obtain h a where h: "Map_get t (home_team_id m) = Some h"
    and a: "Map_get t (away_team_id m) = Some a" by auto
  have okh: "row_ok h" and oka: "row_ok a" using assms(1) h a by blast+
  show ?thesis
  proof (cases "k = home_team_id m \<or> k = away_team_id m")
    case False
    then have "Map_get (tally t m) k = Map_get t k" by (simp add: tally_other)
    with assms show ?thesis by simp
  next
    case True
    then show ?thesis
      using assms(2) h a okh oka
      by (auto simp: tally_def Let_def Map_get_modify row_ok_def split: if_splits)
  qed
qed

lemma loop_row_ok:
  assumes "\<And>k r. Map_get t k = Some r \<Longrightarrow> row_ok r"
    and "Map_get (foldl tally t ms) k = Some r"
  shows "row_ok r"
  using assms
proof (induction ms arbitrary: t)
  case Nil
  then show ?case by simp
next
  case (Cons m ms)
  show ?case
  proof (rule Cons.IH[of "tally t m"])
    show "row_ok r'" if "Map_get (tally t m) k' = Some r'" for k' r'
      using Cons.prems(1) that by (rule tally_row_ok)
    show "Map_get (foldl tally (tally t m) ms) k = Some r"
      using Cons.prems(2) by simp
  qed
qed

lemma table_rows_ok:
  assumes "r \<in> set (Map_values (foldl tally (new_table ts) ms))"
  shows "row_ok r"
proof -
  have d0: "distinct (map fst (new_table ts))" by (rule distinct_new_table)
  then have d: "distinct (map fst (foldl tally (new_table ts) ms))" by simp
  from assms obtain k where "(k, r) \<in> set (foldl tally (new_table ts) ms)"
    by (auto simp: Map_values_def)
  then have g: "Map_get (foldl tally (new_table ts) ms) k = Some r"
    using d by (simp add: Map_get_Some_iff)
  have "row_ok r'" if "Map_get (new_table ts) k' = Some r'" for k' r'
  proof -
    have "(k', r') \<in> set (new_table ts)" using that d0 by (simp add: Map_get_Some_iff)
    then show ?thesis using new_table_rows row_ok_zero_row by blast
  qed
  then show ?thesis using g by (rule loop_row_ok)
qed

section \<open>Sorting\<close>

lemma mset_insert_by [simp]: "mset (insert_by c x xs) = add_mset x (mset xs)"
  by (induction xs) simp_all

lemma mset_Array_sort [simp]: "mset (Array_sort c xs) = mset xs"
  unfolding Array_sort_def by (induction xs) simp_all

lemma set_Array_sort [simp]: "set (Array_sort c xs) = set xs"
  using mset_Array_sort[of c xs] by (rule mset_eq_setD)

lemma length_Array_sort [simp]: "length (Array_sort c xs) = length xs"
  using mset_Array_sort[of c xs] by (rule mset_eq_length)

section \<open>What a finished match adds to the table\<close>

lemma example_standings:
  "computeStandings code_compare [(1, ''Falcon FC''), (2, ''River United'')]
     [seed_match\<lparr>status := ''FINISHED'', home_score := 3, away_score := 1\<rparr>]
   = [\<lparr>team_id = 1, team = ''Falcon FC'', P = 1, W = 1, D = 0, L = 0,
        GF = 3, GA = 1, GD = 2, PTS = 3\<rparr>,
      \<lparr>team_id = 2, team = ''River United'', P = 1, W = 0, D = 0, L = 1,
        GF = 1, GA = 3, GD = - 2, PTS = 0\<rparr>]"
  by code_simp

text \<open>
  The loop of the standings route, had it the rows of the second query. Take it at any
  point (after the matches \<open>pre\<close>) and let the next match \<open>m\<close> have both teams in
  the registered-team list \<open>ts\<close> (a match has two different sides). Then both teams have
  a row, and after \<open>m\<close> the home team's row is \<open>home_row m h\<close> and the away
  team's row is \<open>away_row m a\<close>: played is one higher for both, the home score is added
  to the home team's goals for and the away team's goals against and symmetrically, goal
  difference is goals for minus goals against, and the result gives a win and 3 points
  against a loss and no point, or a draw and 1 point each. Every other row stays as it was.
\<close>

lemma finished_match_contribution:
  assumes reg_home: "home_team_id m \<in> set (map fst ts)"
    and reg_away: "away_team_id m \<in> set (map fst ts)"
    and sides: "home_team_id m \<noteq> away_team_id m"
  shows "\<exists>h a.
           Map_get (foldl tally (new_table ts) pre) (home_team_id m) = Some h
         \<and> Map_get (foldl tally (new_table ts) pre) (away_team_id m) = Some a
         \<and> Map_get (foldl tally (new_table ts) (pre @ [m])) (home_team_id m) = Some (home_row m h)
         \<and> Map_get (foldl tally (new_table ts) (pre @ [m])) (away_team_id m) = Some (away_row m a)
         \<and> GD (home_row m h) = GF (home_row m h) - GA (home_row m h)
         \<and> GD (away_row m a) = GF (away_row m a) - GA (away_row m a)
         \<and> (\<forall>k. k \<noteq> home_team_id m \<and> k \<noteq> away_team_id m \<longrightarrow>
               Map_get (foldl tally (new_table ts) (pre @ [m])) k
                 = Map_get (foldl tally (new_table ts) pre) k)"
proof -
  let ?t = "foldl tally (new_table ts) pre"
  have "Map_get ?t (home_team_id m) \<noteq> None" and "Map_get ?t (away_team_id m) \<noteq> None"
    using reg_home reg_away keys_loop[of ts pre] by (simp_all only: Map_get_None_iff not_not)
  then obtain h a where h: "Map_get ?t (home_team_id m) = Some h"
    and a: "Map_get ?t (away_team_id m) = Some a" by auto
  have step: "foldl tally (new_table ts) (pre @ [m]) = tally ?t m" by simp
  show ?thesis
    using h a tally_home[OF h a sides] tally_away[OF h a sides]
    by (simp only: step) (auto simp: tally_other home_row_def away_row_def)
qed

lemma finished_match_contribution_example:
  "Map_get (foldl tally (new_table [(1, ''Falcon FC''), (2, ''River United'')])
       [seed_match\<lparr>status := ''FINISHED'', home_score := 3, away_score := 1\<rparr>]) 1
     = Some \<lparr>team_id = 1, team = ''Falcon FC'', P = 1, W = 1, D = 0, L = 0,
              GF = 3, GA = 1, GD = 2, PTS = 3\<rparr>
   \<and> Map_get (foldl tally (new_table [(1, ''Falcon FC''), (2, ''River United'')])
       [seed_match\<lparr>status := ''FINISHED'', home_score := 3, away_score := 1\<rparr>]) 2
     = Some \<lparr>team_id = 2, team = ''River United'', P = 1, W = 0, D = 0, L = 1,
              GF = 1, GA = 3, GD = - 2, PTS = 0\<rparr>"
proof -
  let ?m = "seed_match\<lparr>status := ''FINISHED'', home_score := 3, away_score := 1\<rparr>"
  let ?ts = "[(1, ''Falcon FC''), (2, ''River United'')]"
  have r1: "home_team_id ?m \<in> set (map fst ?ts)" and r2: "away_team_id ?m \<in> set (map fst ?ts)"
    and d: "home_team_id ?m \<noteq> away_team_id ?m"
    by (simp_all add: seed_match_def)
  have t0: "new_table ?ts = [(1, zero_row (1, ''Falcon FC'')), (2, zero_row (2, ''River United''))]"
    by (simp add: new_table_def)
  show ?thesis
    using finished_match_contribution[OF r1 r2 d, of "[]"]
    by (simp add: t0 seed_match_def home_row_def away_row_def zero_row_def)
qed

section \<open>The route as shipped\<close>

lemma finished_matches_throws: "finished_matches db cid = Inl (SqliteNoSuchColumn ''FINISHED'')"
  by (simp add: finished_matches_def matches_column_def)

lemma getStandings_throws: "getStandings lc db cid = Inl (SqliteNoSuchColumn ''FINISHED'')"
  by (simp add: getStandings_def finished_matches_throws)

text \<open>
  Claim C3, at the store in which the seeded match of competition 1 is FINISHED with score
  1-0 and both its teams are registered: the standings route ends with the exception of
  its second query and returns no row.
\<close>

theorem standings_route_throws:
  "map status (matches finished_store) = [''FINISHED'']
   \<and> map competition_id (matches finished_store) = [Some 1]
   \<and> registered_teams finished_store 1 = [(1, ''Falcon FC''), (2, ''River United'')]
   \<and> getStandings code_compare finished_store 1 = Inl (SqliteNoSuchColumn ''FINISHED'')
   \<and> response_status (SqliteNoSuchColumn ''FINISHED'') = 500"
  unfolding finished_store_eq scorer_store_eq
  by (simp add: getStandings_throws registered_teams_def seed_store_def seed_match_def)

section \<open>Row arithmetic\<close>

text \<open>
  Claim C10. Every row the handler of the standings route computes satisfies
  P = W + D + L, PTS = 3 W + D and GD = GF - GA, whatever rows its two queries yield, and so
  for every competition id and every store.
\<close>

theorem standings_rows_arithmetic:
  "\<forall>r \<in> set (computeStandings lc ts ms).
      P r = W r + D r + L r \<and> PTS r = 3 * W r + D r \<and> GD r = GF r - GA r"
proof -
  have "row_ok r" if "r \<in> set (computeStandings lc ts ms)" for r
    using that unfolding computeStandings_def by (simp only: set_Array_sort table_rows_ok)
  then show ?thesis
    unfolding row_ok_def by blast
qed

theorem standings_rows_arithmetic_witness:
  "list_all (\<lambda>r. P r = W r + D r + L r \<and> PTS r = 3 * W r + D r \<and> GD r = GF r - GA r)
     (computeStandings code_compare [(1, ''Falcon FC''), (2, ''River United'')]
        [seed_match\<lparr>status := ''FINISHED'', home_score := 3, away_score := 1\<rparr>])
   \<and> length (computeStandings code_compare [(1, ''Falcon FC''), (2, ''River United'')]
        [seed_match\<lparr>status := ''FINISHED'', home_score := 3, away_score := 1\<rparr>]) = 2"
  using standings_rows_arithmetic[of code_compare "[(1, ''Falcon FC''), (2, ''River United'')]"
          "[seed_match\<lparr>status := ''FINISHED'', home_score := 3, away_score := 1\<rparr>]"]
  by (simp add: list_all_iff example_standings)

section \<open>The order of the standings\<close>

lemma compareRows_le0_iff: "compareRows lc a b \<le> 0 \<longleftrightarrow> key_ge lc a b"
  by (auto simp: compareRows_def js_or_def key_ge_def)

lemma key_ge_total:
  assumes "\<And>a b. (lc a b < 0) = (0 < lc b a)"
  shows "key_ge lc a b \<or> key_ge lc b a"
proof -
  have "lc (team a) (team b) \<le> 0 \<or> lc (team b) (team a) \<le> 0"
    using assms[of "team a" "team b"] by linarith
  then show ?thesis
    unfolding key_ge_def by linarith
qed

lemma key_ge_trans:
  assumes "\<And>a b c. lc a b \<le> 0 \<Longrightarrow> lc b c \<le> 0 \<Longrightarrow> lc a c \<le> 0"
    and "key_ge lc a b" and "key_ge lc b c"
  shows "key_ge lc a c"
  using assms(2,3) assms(1)[of "team a" "team b" "team c"]
  unfolding key_ge_def by (smt (verit, best))

lemma sorted_insert_by:
  assumes total: "\<And>a b. R a b \<or> R b a"
    and trans: "\<And>a b c. R a b \<Longrightarrow> R b c \<Longrightarrow> R a c"
    and c: "\<And>a b. (c a b \<le> 0) = R a b"
  shows "sorted_wrt R xs \<Longrightarrow> sorted_wrt R (insert_by c x xs)"
proof (induction xs)
  case Nil
  then show ?case by simp
next
  case (Cons y ys)
  show ?case
  proof (cases "c x y \<le> 0")
    case True
    then have "R x y" by (simp add: c)
    then have "\<forall>z \<in> set (y # ys). R x z"
      using Cons.prems trans by auto
    with True Cons.prems show ?thesis by simp
  next
    case False
    then have "R y x" using total[of x y] by (simp add: c)
    moreover have "set (insert_by c x ys) = insert x (set ys)"
      using mset_insert_by[of c x ys] by (metis mset_eq_setD set_mset_add_mset_insert set_mset_mset)
    ultimately show ?thesis
      using False Cons by auto
  qed
qed

lemma sorted_Array_sort:
  assumes total: "\<And>a b. R a b \<or> R b a"
    and trans: "\<And>a b c. R a b \<Longrightarrow> R b c \<Longrightarrow> R a c"
    and c: "\<And>a b. (c a b \<le> 0) = R a b"
  shows "sorted_wrt R (Array_sort c xs)"
  unfolding Array_sort_def
  by (induction xs) (simp_all add: sorted_insert_by[OF total trans c])

lemma computeStandings_sorted:
  assumes anti: "\<And>a b. (lc a b < 0) = (0 < lc b a)"
    and trans: "\<And>a b c. lc a b \<le> 0 \<Longrightarrow> lc b c \<le> 0 \<Longrightarrow> lc a c \<le> 0"
  shows "sorted_wrt (key_ge lc) (computeStandings lc ts ms)"
  unfolding computeStandings_def
proof (rule sorted_Array_sort)
  show "key_ge lc a b \<or> key_ge lc b a" for a b
    using anti by (rule key_ge_total)
  show "key_ge lc a b \<Longrightarrow> key_ge lc b c \<Longrightarrow> key_ge lc a c" for a b c
    using trans by (rule key_ge_trans)
  show "(compareRows lc a b \<le> 0) = key_ge lc a b" for a b
    by (rule compareRows_le0_iff)
qed

section \<open>Comparison of names by character code\<close>

lemma code_compare_anti: "(code_compare a b < 0) = (0 < code_compare b a)"
  by (induction a b rule: code_compare.induct) auto

lemma code_compare_trans:
  "code_compare a b \<le> 0 \<Longrightarrow> code_compare b c \<le> 0 \<Longrightarrow> code_compare a c \<le> 0"
proof (induction a b arbitrary: c rule: code_compare.induct)
  case 1
  then show ?case by simp
next
  case (2 y ys)
  then show ?case by (cases c) simp_all
next
  case (3 x xs)
  then show ?case by simp
next
  case (4 x xs y ys)
  show ?case
  proof (cases c)
    case Nil
    with "4.prems" show ?thesis by simp
  next
    case (Cons z zs)
    with "4.prems" "4.IH"[of zs] show ?thesis
      by (auto split: if_splits)
  qed
qed

lemma compare_ignoring_controls_anti:
  "(compare_ignoring_controls a b < 0) = (0 < compare_ignoring_controls b a)"
  unfolding compare_ignoring_controls_def by (rule code_compare_anti)

lemma compare_ignoring_controls_trans:
  "compare_ignoring_controls a b \<le> 0 \<Longrightarrow> compare_ignoring_controls b c \<le> 0 \<Longrightarrow>
   compare_ignoring_controls a c \<le> 0"
  unfolding compare_ignoring_controls_def by (rule code_compare_trans)

lemma tied_names: "compare_ignoring_controls (''Ab'' @ [CHR 0x01]) ''Ab'' = 0"
  by (simp add: compare_ignoring_controls_def printable_def)

lemma example_tie:
  "computeStandings compare_ignoring_controls tied_teams []
   = [\<lparr>team_id = 3, team = ''Ab'' @ [CHR 0x01], P = 0, W = 0, D = 0, L = 0,
        GF = 0, GA = 0, GD = 0, PTS = 0\<rparr>,
      \<lparr>team_id = 4, team = ''Ab'', P = 0, W = 0, D = 0, L = 0,
        GF = 0, GA = 0, GD = 0, PTS = 0\<rparr>]"
  by code_simp

lemma example_draw:
  "computeStandings code_compare [(2, ''River United''), (1, ''Falcon FC'')]
     [seed_match\<lparr>status := ''FINISHED'', home_score := 2, away_score := 2\<rparr>]
   = [\<lparr>team_id = 1, team = ''Falcon FC'', P = 1, W = 0, D = 1, L = 0,
        GF = 2, GA = 2, GD = 0, PTS = 1\<rparr>,
      \<lparr>team_id = 2, team = ''River United'', P = 1, W = 0, D = 1, L = 0,
        GF = 2, GA = 2, GD = 0, PTS = 1\<rparr>]"
  by code_simp

section \<open>Ranking\<close>

text \<open>
  Claim C4, as the code has it. Let \<open>lc\<close>, the name comparison of the host, be
  consistent (antisymmetric in sign and transitive). Then the comparator of the route is
  the composite one: it puts \<open>a\<close> first exactly when \<open>a\<close>'s key tuple of points,
  goal difference, goals for, and name descending in the order of \<open>lc\<close> is greater or
  equal. The rows the handler computes from its query results are sorted by it: a row that
  comes before another has a key tuple greater or equal. For two different positions whose
  rows do not tie on all four keys, the row at the first comes before the row at the second
  exactly when its key tuple is greater or equal.
\<close>

theorem standings_order:
  assumes lc_anti: "\<forall>a b. (lc a b < 0) = (0 < lc b a)"
    and lc_trans: "\<forall>a b c. lc a b \<le> 0 \<and> lc b c \<le> 0 \<longrightarrow> lc a c \<le> 0"
  shows "(\<forall>a b. (compareRows lc a b \<le> 0) = key_ge lc a b)
       \<and> sorted_wrt (\<lambda>a b. compareRows lc a b \<le> 0) (computeStandings lc ts ms)
       \<and> (\<forall>i j. i < j \<and> j < length (computeStandings lc ts ms) \<longrightarrow>
             key_ge lc (computeStandings lc ts ms ! i) (computeStandings lc ts ms ! j))
       \<and> (\<forall>i < length (computeStandings lc ts ms). \<forall>j < length (computeStandings lc ts ms).
             i \<noteq> j
             \<and> \<not> (key_ge lc (computeStandings lc ts ms ! i) (computeStandings lc ts ms ! j)
                  \<and> key_ge lc (computeStandings lc ts ms ! j) (computeStandings lc ts ms ! i))
             \<longrightarrow>
             (i < j) = key_ge lc (computeStandings lc ts ms ! i) (computeStandings lc ts ms ! j))"
proof (intro conjI allI impI)
  have anti: "(lc a b < 0) = (0 < lc b a)" for a b
    using lc_anti by blast
  have trans: "lc a b \<le> 0 \<Longrightarrow> lc b c \<le> 0 \<Longrightarrow> lc a c \<le> 0" for a b c
    using lc_trans by blast
  let ?out = "computeStandings lc ts ms"
  show "(compareRows lc a b \<le> 0) = key_ge lc a b" for a b
    by (rule compareRows_le0_iff)
  have sorted: "sorted_wrt (key_ge lc) ?out"
    using anti trans by (rule computeStandings_sorted)
  then show "sorted_wrt (\<lambda>a b. compareRows lc a b \<le> 0) ?out"
    by (simp add: compareRows_le0_iff)
  have before: "key_ge lc (?out ! p) (?out ! q)" if "p < q" "q < length ?out" for p q
    using sorted that by (simp add: sorted_wrt_iff_nth_less)
  show "key_ge lc (?out ! i) (?out ! j)" if "i < j \<and> j < length ?out" for i j
    using that before by blast
  fix i j
  assume i: "i < length ?out" and j: "j < length ?out"
    and ne: "i \<noteq> j \<and> \<not> (key_ge lc (?out ! i) (?out ! j) \<and> key_ge lc (?out ! j) (?out ! i))"
  show "(i < j) = key_ge lc (?out ! i) (?out ! j)"
  proof
    assume "i < j"
    then show "key_ge lc (?out ! i) (?out ! j)" using j by (rule before)
  next
    assume ge: "key_ge lc (?out ! i) (?out ! j)"
    show "i < j"
    proof (rule ccontr)
      assume "\<not> i < j"
      then have "j < i" using ne by simp
      then have "key_ge lc (?out ! j) (?out ! i)" using i by (rule before)
      with ge ne show False by simp
    qed
  qed
qed

theorem standings_order_witness:
  "map team (computeStandings code_compare [(2, ''River United''), (1, ''Falcon FC'')]
       [seed_match\<lparr>status := ''FINISHED'', home_score := 2, away_score := 2\<rparr>])
     = [''Falcon FC'', ''River United'']
   \<and> key_ge code_compare
       (computeStandings code_compare [(2, ''River United''), (1, ''Falcon FC'')]
          [seed_match\<lparr>status := ''FINISHED'', home_score := 2, away_score := 2\<rparr>] ! 0)
       (computeStandings code_compare [(2, ''River United''), (1, ''Falcon FC'')]
          [seed_match\<lparr>status := ''FINISHED'', home_score := 2, away_score := 2\<rparr>] ! 1)
   \<and> \<not> key_ge code_compare
       (computeStandings code_compare [(2, ''River United''), (1, ''Falcon FC'')]
          [seed_match\<lparr>status := ''FINISHED'', home_score := 2, away_score := 2\<rparr>] ! 1)
       (computeStandings code_compare [(2, ''River United''), (1, ''Falcon FC'')]
          [seed_match\<lparr>status := ''FINISHED'', home_score := 2, away_score := 2\<rparr>] ! 0)"
proof -
  let ?ts = "[(2::int, ''River United''), (1, ''Falcon FC'')]"
  let ?ms = "[seed_match\<lparr>status := ''FINISHED'', home_score := 2, away_score := 2\<rparr>]"
  let ?out = "computeStandings code_compare ?ts ?ms"
  have len: "length ?out = 2"
    by (simp add: example_draw)
  have names_out: "map team ?out = [''Falcon FC'', ''River United'']"
    by (simp add: example_draw)
  have no_tie: "\<not> key_ge code_compare (?out ! 1) (?out ! 0)"
    by (simp add: example_draw key_ge_def)
  have anti: "\<forall>a b. (code_compare a b < 0) = (0 < code_compare b a)"
    by (simp add: code_compare_anti)
  have trans: "\<forall>a b c. code_compare a b \<le> 0 \<and> code_compare b c \<le> 0
                 \<longrightarrow> code_compare a c \<le> 0"
    using code_compare_trans by blast
  from standings_order[of code_compare ?ts ?ms, OF anti trans]
  have pairs: "\<forall>i < 2. \<forall>j < 2.
          i \<noteq> j \<and> \<not> (key_ge code_compare (?out ! i) (?out ! j)
                       \<and> key_ge code_compare (?out ! j) (?out ! i)) \<longrightarrow>
          (i < j) = key_ge code_compare (?out ! i) (?out ! j)"
    by (simp only: len) (elim conjE, assumption)
  have "key_ge code_compare (?out ! 0) (?out ! 1)"
    using pairs[rule_format, of 0 1] no_tie by simp
  then show ?thesis using names_out no_tie by simp
qed

text \<open>
  Claim C4 as stated fails: under the comparison that ignores control characters the two
  teams of \<open>tied_teams\<close>, with no match played, tie on all four keys. The row of team 4
  is at the second position, after the row of team 3, although its key tuple is greater or
  equal.
\<close>

theorem standings_tie_counterexample:
  "map team_id (computeStandings compare_ignoring_controls tied_teams []) = [3, 4]
   \<and> key_ge compare_ignoring_controls
       (computeStandings compare_ignoring_controls tied_teams [] ! 1)
       (computeStandings compare_ignoring_controls tied_teams [] ! 0)"
  by (simp add: example_tie key_ge_def tied_names compare_ignoring_controls_def printable_def)

section \<open>Where the hypotheses come from\<close>

lemma list_all_map_upd:
  assumes "\<And>x. Q (f x) = Q x"
  shows "list_all Q (map (\<lambda>x. if c x then f x else x) xs) = list_all Q xs"
  by (induction xs) (simp_all add: assms)

lemma postMatch_sides_differ:
  "sides_differ db \<Longrightarrow> sides_differ (snd (postMatch db b))"
  by (simp add: sides_differ_def postMatch_def MatchSchema_def Let_def)

lemma postStatus_sides_differ:
  "sides_differ db \<Longrightarrow> sides_differ (snd (postStatus db mid st))"
  by (simp add: sides_differ_def postStatus_def list_all_map_upd)

lemma update_scores_sides_differ:
  "sides_differ db \<Longrightarrow> sides_differ (update_scores db hi ai mid)"
  by (simp add: sides_differ_def update_scores_def list_all_map_upd)

lemma sides_differ_cong: "matches a = matches b \<Longrightarrow> sides_differ a = sides_differ b"
  by (simp add: sides_differ_def)

lemma postEvent_sides_differ:
  assumes "sides_differ db"
  shows "sides_differ (snd (postEvent db mid body))"
proof (cases "b_type body \<in> set event_types")
  case False
  with assms show ?thesis by (simp add: postEvent_def)
next
  case ty: True
  show ?thesis
  proof (cases "insert_match_event db mid (b_minute body) (b_type body) (b_player_id body)
               (b_team_id body) (b_notes body)")
    case (Inl e)
    with ty assms show ?thesis by (simp add: postEvent_def)
  next
    case (Inr r)
    obtain eid db1 where r: "r = (eid, db1)" by (cases r)
    have "matches db1 = matches db" using Inr r insert_match_event_Inr(1) by blast
    then have s1: "sides_differ db1" using assms by (simp add: sides_differ_def)
    show ?thesis
    proof (cases "goal_block db1 mid (b_type body) (b_player_id body) (b_team_id body)")
      case (Inl e)
      with ty Inr r s1 show ?thesis by (simp add: postEvent_def)
    next
      case gb: (Inr db2)
      have "sides_differ db2"
        using gb s1 update_scores_sides_differ[OF s1]
        by (auto simp: goal_block_def sides_differ_def when_player_matches
              split: if_splits option.splits)
      then have "sides_differ (when_player (b_player_id body) (b_type body = ''RED'') inc_red_cards
                (when_player (b_player_id body) (b_type body = ''YELLOW'') inc_yellow_cards db2))"
        by (simp add: sides_differ_def when_player_matches)
      then show ?thesis using ty Inr r gb by (simp add: postEvent_def)
    qed
  qed
qed

lemma postPlayer_ids_positive:
  "player_ids_positive db \<Longrightarrow> player_ids_positive (snd (postPlayer db b))"
  by (simp add: player_ids_positive_def postPlayer_def Let_def)

lemma putPlayer_ids_positive:
  "player_ids_positive db \<Longrightarrow> player_ids_positive (snd (putPlayer db pid u))"
proof -
  have "(0 < p_id (set_fields u x)) = (0 < p_id x)" for x
    by (simp add: set_fields_def)
  then show "player_ids_positive db \<Longrightarrow> player_ids_positive (snd (putPlayer db pid u))"
    by (simp add: player_ids_positive_def putPlayer_def Let_def list_all_map_upd)
qed

lemma postEvent_ids_positive:
  assumes "player_ids_positive db"
  shows "player_ids_positive (snd (postEvent db mid body))"
proof -
  have "list_all2 counters_le (players db) (players (snd (postEvent db mid body)))"
    using postEvent_counters_mono[of db mid body] by (simp add: counters_mono_def)
  then have "list_all (\<lambda>p. 0 < p_id p) (players db) \<Longrightarrow>
             list_all (\<lambda>p. 0 < p_id p) (players (snd (postEvent db mid body)))"
    by (induction rule: list_all2_induct) (simp_all add: counters_le_def)
  moreover have "seq_players (snd (postEvent db mid body)) = seq_players db"
    by (cases "b_player_id body")
       (auto simp: postEvent_def insert_match_event_def goal_block_def update_scores_def
          inc_goals_def inc_yellow_cards_def inc_red_cards_def Let_def
          split: sum.splits option.splits if_splits)
  ultimately show ?thesis
    using assms by (simp add: player_ids_positive_def)
qed

lemma seed_store_invariants: "sides_differ seed_store \<and> player_ids_positive seed_store"
  by (simp add: sides_differ_def player_ids_positive_def seed_store_def seed_match_def
        new_player_def)

end
